theory Spec2Isabelle
  imports Complex_Main
begin

section \<open>JavaScript values used by the seat monitor\<close>

text \<open>
  A JavaScript number, as far as \<^verbatim>\<open>seat_monitor_app.js\<close> observes one: it tests
  \<^verbatim>\<open>isNaN\<close>, compares with zero, multiplies by 60 and by 1000, and passes the product
  to \<^verbatim>\<open>setTimeout\<close>. A finite value is kept as an exact rational; what binary64 does to
  the classification of a value is modelled (\<open>round_double\<close>: a magnitude of at most
  \<open>1 / 2 ^ 1075\<close>, half the least positive double, becomes zero; one of at least
  \<open>2 ^ 1024 - 2 ^ 970\<close>, half way from the greatest double to \<open>2 ^ 1024\<close>, becomes
  infinite). The rounding of the mantissa in between and the sign of zero are not
  modelled: neither changes the outcome of a test the program makes.
\<close>

datatype jsnum = NaN | Num rat | PosInfinity | NegInfinity

definition round_double :: "rat \<Rightarrow> jsnum" where
  "round_double q =
     (if \<bar>q\<bar> \<le> 1 / 2 ^ 1075 then Num 0
      else if 2 ^ 1024 - 2 ^ 970 \<le> \<bar>q\<bar> then (if q < 0 then NegInfinity else PosInfinity)
      else Num q)"

text \<open>\<^verbatim>\<open>x * c\<close> for a positive finite constant \<open>c\<close> (the program multiplies by 60 and 1000).\<close>

fun js_times :: "jsnum \<Rightarrow> rat \<Rightarrow> jsnum" where
  "js_times NaN c = NaN"
| "js_times (Num q) c = round_double (q * c)"
| "js_times PosInfinity c = PosInfinity"
| "js_times NegInfinity c = NegInfinity"

text \<open>\<^verbatim>\<open>x <= 0\<close>: every comparison with NaN is false.\<close>

fun js_le_zero :: "jsnum \<Rightarrow> bool" where
  "js_le_zero NaN = False"
| "js_le_zero (Num q) = (q \<le> 0)"
| "js_le_zero PosInfinity = False"
| "js_le_zero NegInfinity = True"

fun js_negate :: "jsnum \<Rightarrow> jsnum" where
  "js_negate NaN = NaN"
| "js_negate (Num q) = Num (- q)"
| "js_negate PosInfinity = NegInfinity"
| "js_negate NegInfinity = PosInfinity"

subsection \<open>Integers in template literals\<close>

text \<open>
  \<^verbatim>\<open>${soldCount}\<close> and \<^verbatim>\<open>${change}\<close> print an integer: its decimal digits, with a leading
  minus sign when it is negative. (The metric is the length of an array, far below the
  \<open>10 ^ 21\<close> from which JavaScript switches to exponent notation.)
\<close>

fun decimal :: "nat \<Rightarrow> string" where
  "decimal n =
     (if n < 10 then [''0123456789'' ! n]
      else decimal (n div 10) @ [''0123456789'' ! (n mod 10)])"

declare decimal.simps [simp del]

definition js_integer_text :: "int \<Rightarrow> string" where
  "js_integer_text i = (if i < 0 then ''-'' @ decimal (nat (- i)) else decimal (nat i))"

subsection \<open>Strings as numbers\<close>

text \<open>
  \<^verbatim>\<open>isNaN(nextArg)\<close> converts the string with \<^verbatim>\<open>Number\<close>, \<^verbatim>\<open>parseFloat(nextArg)\<close> reads the
  longest prefix that is a decimal literal. Both follow the grammar of ECMAScript's
  \<^verbatim>\<open>StringNumericLiteral\<close>. A string is the UTF-8 bytes of the argument;
  \<open>whiteSpaceLength\<close> is the number of bytes of the white space or line terminator the
  string starts with (0 when it starts with neither): TAB, LF, VT, FF, CR and SP in one
  byte, U+00A0 in two, and U+1680, U+2000 to U+200A, U+2028, U+2029, U+202F, U+205F,
  U+3000 and U+FEFF in three.
\<close>

definition whiteSpaceLength :: "string \<Rightarrow> nat" where
  "whiteSpaceLength s =
     (case map of_char s :: nat list of
        [] \<Rightarrow> 0
      | b0 # bs \<Rightarrow>
          if b0 \<in> {9, 10, 11, 12, 13, 32} then 1
          else if b0 = 194 then (if take 1 bs = [160] then 2 else 0)
          else if b0 = 225 then (if take 2 bs = [154, 128] then 3 else 0)
          else if b0 = 226 then
            (case take 2 bs of
               [b1, b2] \<Rightarrow>
                 if b1 = 128 \<and> (128 \<le> b2 \<and> b2 \<le> 138 \<or> b2 \<in> {168, 169, 175}) \<or>
                    b1 = 129 \<and> b2 = 159
                 then 3 else 0
             | _ \<Rightarrow> 0)
          else if b0 = 227 then (if take 2 bs = [128, 128] then 3 else 0)
          else if b0 = 239 then (if take 2 bs = [187, 191] then 3 else 0)
          else 0)"

function trimStart :: "string \<Rightarrow> string" where
  "trimStart s = (if whiteSpaceLength s = 0 then s else trimStart (drop (whiteSpaceLength s) s))"
  by pat_completeness auto
termination
proof (relation "measure length")
  show "wf (measure length)" by simp
next
  fix s :: string
  assume "whiteSpaceLength s \<noteq> 0"
  moreover have "whiteSpaceLength [] = 0" by (simp add: whiteSpaceLength_def)
  ultimately have "s \<noteq> []" by auto
  with \<open>whiteSpaceLength s \<noteq> 0\<close> show "(drop (whiteSpaceLength s) s, s) \<in> measure length"
    by simp
qed

declare trimStart.simps [simp del]

definition isDecimalDigit :: "char \<Rightarrow> bool" where
  "isDecimalDigit c = (c \<in> set ''0123456789'')"

definition digitsValue :: "string \<Rightarrow> nat" where
  "digitsValue ds = foldl (\<lambda>n c. 10 * n + (of_char c - 48)) 0 ds"

definition pow10 :: "int \<Rightarrow> rat" where
  "pow10 e = (if 0 \<le> e then 10 ^ nat e else 1 / 10 ^ nat (- e))"

definition exponentPart :: "string \<Rightarrow> int \<times> string" where
  "exponentPart s =
     (case s of
        [] \<Rightarrow> (0, s)
      | c # r \<Rightarrow>
          if c = CHR ''e'' \<or> c = CHR ''E'' then
            (let (negative, r1) =
                   (case r of
                      [] \<Rightarrow> (False, r)
                    | d # r' \<Rightarrow>
                        if d = CHR ''-'' then (True, r')
                        else if d = CHR ''+'' then (False, r')
                        else (False, r));
                 ds = takeWhile isDecimalDigit r1
             in if ds = [] then (0, s)
                else ((if negative then - int (digitsValue ds) else int (digitsValue ds)),
                      dropWhile isDecimalDigit r1))
          else (0, s))"

definition strUnsignedDecimalLiteral :: "string \<Rightarrow> (jsnum \<times> string) option" where
  "strUnsignedDecimalLiteral s =
     (if take 8 s = ''Infinity'' then Some (PosInfinity, drop 8 s)
      else
        (let ip = takeWhile isDecimalDigit s;
             r1 = dropWhile isDecimalDigit s;
             hasDot = (r1 \<noteq> [] \<and> hd r1 = CHR ''.'');
             fp = (if hasDot then takeWhile isDecimalDigit (tl r1) else []);
             r2 = (if hasDot then dropWhile isDecimalDigit (tl r1) else r1)
         in if ip = [] \<and> fp = [] then None
            else
              (let (e, r3) = exponentPart r2
               in Some (round_double (of_nat (digitsValue (ip @ fp)) / 10 ^ length fp * pow10 e), r3))))"

definition strDecimalLiteral :: "string \<Rightarrow> (jsnum \<times> string) option" where
  "strDecimalLiteral s =
     (case s of
        [] \<Rightarrow> None
      | c # r \<Rightarrow>
          if c = CHR ''+'' then strUnsignedDecimalLiteral r
          else if c = CHR ''-'' then
            map_option (\<lambda>(v, rest). (js_negate v, rest)) (strUnsignedDecimalLiteral r)
          else strUnsignedDecimalLiteral s)"

definition nonDecimalIntegerLiteral :: "string \<Rightarrow> string option" where
  "nonDecimalIntegerLiteral s =
     (case s of
        z # x # r \<Rightarrow>
          (let digits =
                 (if x \<in> set ''xX'' then ''0123456789abcdefABCDEF''
                  else if x \<in> set ''oO'' then ''01234567''
                  else if x \<in> set ''bB'' then ''01''
                  else [])
           in if z = CHR ''0'' \<and> takeWhile (\<lambda>c. c \<in> set digits) r \<noteq> []
              then Some (dropWhile (\<lambda>c. c \<in> set digits) r)
              else None)
      | _ \<Rightarrow> None)"

definition js_isNaN :: "string \<Rightarrow> bool" where
  "js_isNaN s =
     (let t = trimStart s in
      if t = [] then False
      else
        (case nonDecimalIntegerLiteral t of
           Some rest \<Rightarrow> trimStart rest \<noteq> []
         | None \<Rightarrow>
             (case strDecimalLiteral t of
                Some (v, rest) \<Rightarrow> trimStart rest \<noteq> []
              | None \<Rightarrow> True)))"

definition parseFloat :: "string \<Rightarrow> jsnum" where
  "parseFloat s = (case strDecimalLiteral (trimStart s) of None \<Rightarrow> NaN | Some (v, rest) \<Rightarrow> v)"

section \<open>Constants of the program\<close>

definition DEFAULT_INTERVAL :: jsnum where
  "DEFAULT_INTERVAL = Num 5"

definition API_URL :: string where
  "API_URL = ''https://booking-service.services.ditix.app/api/public/v1.0/event/prices/?id=3249d4cb-c92b-4c68-bbb3-6a6213b7cbaf&publicKey=e16be350-4367-48d7-861d-00f4645b3cba''"

definition JMESPATH_EXPRESSION :: string where
  "JMESPATH_EXPRESSION = ''length(seats[?@[3] == `SOLD`])''"

section \<open>The console\<close>

text \<open>
  One entry per call of \<^verbatim>\<open>console.log\<close> (\<open>Log\<close>) or \<^verbatim>\<open>console.error\<close> (\<open>Err\<close>), in the order
  of the calls; the text is the bytes written, UTF-8. \<open>LogNumber before x after\<close> is a call
  of \<^verbatim>\<open>console.log\<close> whose text embeds a number that need not be an integer (line 83, the
  check interval in minutes): how JavaScript prints such a number is not modelled, the
  entry keeps the number between the text before it and the text after it.
\<close>

datatype entry = Log string | Err string | LogNumber string jsnum string

definition newline :: string where
  "newline = [CHR 0x0A]"

definition emoji_ticket :: string where
  "emoji_ticket = [CHR 0xF0, CHR 0x9F, CHR 0x8E, CHR 0xAB]"

definition emoji_chart :: string where
  "emoji_chart = [CHR 0xF0, CHR 0x9F, CHR 0x93, CHR 0x8A]"

definition emoji_stopwatch :: string where
  "emoji_stopwatch = [CHR 0xE2, CHR 0x8F, CHR 0xB1, CHR 0xEF, CHR 0xB8, CHR 0x8F]"

definition emoji_magnifier :: string where
  "emoji_magnifier = [CHR 0xF0, CHR 0x9F, CHR 0x94, CHR 0x8D]"

definition emoji_stop_button :: string where
  "emoji_stop_button = [CHR 0xE2, CHR 0x8F, CHR 0xB9, CHR 0xEF, CHR 0xB8, CHR 0x8F]"

definition emoji_stop_sign :: string where
  "emoji_stop_sign = [CHR 0xF0, CHR 0x9F, CHR 0x9B, CHR 0x91]"

section \<open>The monitor and the process around it\<close>

text \<open>The fields the constructor of \<^verbatim>\<open>SeatMonitor\<close> sets (lines 12 to 18).\<close>

record monitor =
  intervalMinutes :: jsnum
  intervalMs :: jsnum
  isRunning :: bool
  timeoutId :: "nat option"
  previousSoldCount :: "nat option"

text \<open>
  The monitor together with what the runtime holds for it:
  \<^item> \<open>timers\<close>: the one-shot timers that \<^verbatim>\<open>setTimeout\<close> armed and that have neither fired
    nor been cleared, each with its handle and its delay; \<open>nextTimer\<close> is the next fresh
    handle (a handle is an object of its own in Node, so it is never falsy and never reused);
  \<^item> \<open>inflight\<close>: the activations of \<^verbatim>\<open>checkSoldSeats\<close> suspended at
    \<^verbatim>\<open>await this.fetchData()\<close>, each with its number and the timestamp it captured;
    \<open>nextCheck\<close> counts the checks begun so far;
  \<^item> \<open>stalled\<close>: the activations whose promise will never settle, so that they stay
    suspended for good;
  \<^item> \<open>console\<close>: what was printed;
  \<^item> \<open>exitStatus\<close>: the status the process ended with, if it has ended.
\<close>

record sys = monitor +
  timers :: "(nat \<times> jsnum) list"
  nextTimer :: nat
  inflight :: "(nat \<times> string) list"
  nextCheck :: nat
  stalled :: "(nat \<times> string) list"
  console :: "entry list"
  exitStatus :: "nat option"

definition SeatMonitor :: "jsnum \<Rightarrow> sys" where
  "SeatMonitor minutes =
     \<lparr>intervalMinutes = minutes,
      intervalMs = js_times (js_times minutes 60) 1000,
      isRunning = False,
      timeoutId = None,
      previousSoldCount = None,
      timers = [], nextTimer = 0, inflight = [], nextCheck = 0, stalled = [], console = [],
      exitStatus = None\<rparr>"

definition console_log :: "string \<Rightarrow> sys \<Rightarrow> sys" where
  "console_log message s = s\<lparr>console := console s @ [Log message]\<rparr>"

definition console_error :: "string \<Rightarrow> sys \<Rightarrow> sys" where
  "console_error message s = s\<lparr>console := console s @ [Err message]\<rparr>"

definition setTimeout :: "jsnum \<Rightarrow> sys \<Rightarrow> nat \<times> sys" where
  "setTimeout delay s =
     (nextTimer s, s\<lparr>timers := timers s @ [(nextTimer s, delay)], nextTimer := Suc (nextTimer s)\<rparr>)"

definition clearTimeout :: "nat \<Rightarrow> sys \<Rightarrow> sys" where
  "clearTimeout h s = s\<lparr>timers := filter (\<lambda>(h', delay). h' \<noteq> h) (timers s)\<rparr>"

section \<open>One check cycle\<close>

text \<open>
  What the network and the two library calls do is the environment's choice, so it is the
  input of a cycle. A response body stands for what \<^verbatim>\<open>JSON.parse\<close> does with it, a parsed
  document for what \<^verbatim>\<open>jmespath.search(data, JMESPATH_EXPRESSION)\<close> does with it: the
  expression is a call of \<^verbatim>\<open>length\<close>, which returns the length of a list (a natural
  number) or throws an \<^verbatim>\<open>Error\<close>. An \<open>http_outcome\<close> is one of the three ways
  \<^verbatim>\<open>fetchData\<close> listens for: the response ends, the request reports an error, or the
  timeout of ten seconds passes; the first of them settles the promise. (The fourth way
  a request can end, a response that is cut off, is the event \<open>CutOff\<close> below.)
\<close>

datatype document = SearchThrows string | SoldCount nat

datatype body = ParseThrows string | Parses document

datatype http_outcome = ResponseEnd body | RequestError string | RequestTimeout

definition JSON_parse :: "body \<Rightarrow> string + document" where
  "JSON_parse data = (case data of ParseThrows message \<Rightarrow> Inl message | Parses jsonData \<Rightarrow> Inr jsonData)"

definition jmespath_search :: "document \<Rightarrow> string + nat" where
  "jmespath_search data = (case data of SearchThrows message \<Rightarrow> Inl message | SoldCount n \<Rightarrow> Inr n)"

text \<open>
  \<^verbatim>\<open>fetchData\<close> (lines 20 to 48): how its promise settles. \<open>Inl message\<close> is a rejection
  with \<^verbatim>\<open>new Error(message)\<close>, \<open>Inr jsonData\<close> the resolution.
\<close>

definition fetchData :: "http_outcome \<Rightarrow> string + document" where
  "fetchData h =
     (case h of
        ResponseEnd data \<Rightarrow>
          (case JSON_parse data of
             Inr jsonData \<Rightarrow> Inr jsonData
           | Inl message \<Rightarrow> Inl (''Failed to parse JSON: '' @ message))
      | RequestError message \<Rightarrow> Inl (''Request failed: '' @ message)
      | RequestTimeout \<Rightarrow> Inl ''Request timeout'')"

text \<open>Line 61: the text of the change against the previous count.\<close>

definition changeText :: "int \<Rightarrow> string" where
  "changeText change =
     (if change > 0 then ''(+'' @ js_integer_text change @ '')''
      else if change < 0 then ''('' @ js_integer_text change @ '')''
      else ''(no change)'')"

text \<open>
  \<^verbatim>\<open>checkSoldSeats\<close> (lines 50 to 72) runs in two parts. The first runs when it is called:
  it captures the timestamp, prints that it is checking and starts the request; then it is
  suspended at the \<^verbatim>\<open>await\<close>. The stored count is compared with \<^verbatim>\<open>null\<close> by \<^verbatim>\<open>!==\<close>, so
  a stored count of zero is a stored count.
\<close>

definition checkSoldSeats_begin :: "string \<Rightarrow> sys \<Rightarrow> sys" where
  "checkSoldSeats_begin timestamp s =
     (let s1 = console_log (''['' @ timestamp @ ''] Checking sold seats...'') s
      in s1\<lparr>inflight := inflight s1 @ [(nextCheck s1, timestamp)], nextCheck := Suc (nextCheck s1)\<rparr>)"

text \<open>
  The second part runs when the promise of \<^verbatim>\<open>fetchData\<close> settles: the rest of the
  \<^verbatim>\<open>try\<close> block (\<open>Inl\<close>: an error was thrown, with its message and the state it left), and
  the \<^verbatim>\<open>catch\<close> clause around it. The result of \<open>checkSoldSeats_resume\<close> is \<open>Inr\<close> when the
  function completes normally and \<open>Inl\<close> when an error leaves it.
\<close>

definition checkSoldSeats_try :: "string \<Rightarrow> http_outcome \<Rightarrow> sys \<Rightarrow> (string \<times> sys) + sys" where
  "checkSoldSeats_try timestamp h s =
     (case fetchData h of
        Inl message \<Rightarrow> Inl (message, s)
      | Inr data \<Rightarrow>
          (case jmespath_search data of
             Inl message \<Rightarrow> Inl (message, s)
           | Inr soldCount \<Rightarrow>
               (let s1 =
                  (case previousSoldCount s of
                     Some previous \<Rightarrow>
                       console_log (''['' @ timestamp @ ''] Sold seats: '' @ js_integer_text (int soldCount)
                                    @ '' '' @ changeText (int soldCount - int previous)) s
                   | None \<Rightarrow>
                       console_log (''['' @ timestamp @ ''] Sold seats: '' @ js_integer_text (int soldCount)) s)
                in Inr (s1\<lparr>previousSoldCount := Some soldCount\<rparr>))))"

definition checkSoldSeats_resume :: "string \<Rightarrow> http_outcome \<Rightarrow> sys \<Rightarrow> (string \<times> sys) + sys" where
  "checkSoldSeats_resume timestamp h s =
     (case checkSoldSeats_try timestamp h s of
        Inr s' \<Rightarrow> Inr s'
      | Inl (message, s') \<Rightarrow> Inr (console_error (''['' @ timestamp @ ''] Error: '' @ message) s'))"

section \<open>start, stop and the chain of timers\<close>

text \<open>
  \<^verbatim>\<open>scheduleNext\<close> (lines 91 to 98). It is called after the \<^verbatim>\<open>await\<close> of a check, in
  \<^verbatim>\<open>start\<close> (line 100) and in the callback of the timer (line 95); the closure reads
  nothing but the fields of \<^verbatim>\<open>this\<close>, so the two calls are the same function of the state.
\<close>

definition scheduleNext :: "sys \<Rightarrow> sys" where
  "scheduleNext s =
     (if isRunning s then
        (let (h, s1) = setTimeout (intervalMs s) s in s1\<lparr>timeoutId := Some h\<rparr>)
      else s)"

text \<open>\<^verbatim>\<open>start\<close> (lines 74 to 101), up to the \<^verbatim>\<open>await\<close> inside the initial check.\<close>

definition start :: "string \<Rightarrow> sys \<Rightarrow> sys" where
  "start timestamp s =
     (if isRunning s then console_log ''Monitor is already running'' s
      else
        (let s1 = s\<lparr>isRunning := True\<rparr>;
             s2 = console_log (emoji_ticket @ '' MTV Braunschweig - Starting ticket monitor...'') s1;
             s3 = console_log (emoji_chart @ '' Monitoring URL: '' @ API_URL) s2;
             s4 = s3\<lparr>console := console s3 @
                    [LogNumber (emoji_stopwatch @ ''  Check interval: '') (intervalMinutes s3) '' minute(s)'']\<rparr>;
             s5 = console_log (emoji_magnifier @ '' JMESPath expression: '' @ JMESPATH_EXPRESSION) s4;
             s6 = console_log (emoji_stop_button @ ''  Press Ctrl+C to stop'' @ newline) s5
         in checkSoldSeats_begin timestamp s6))"

text \<open>\<^verbatim>\<open>stop\<close> (lines 103 to 114).\<close>

definition stop :: "sys \<Rightarrow> sys" where
  "stop s =
     (if \<not> isRunning s then s
      else
        (let s1 = s\<lparr>isRunning := False\<rparr>;
             s2 = (case timeoutId s1 of
                     Some h \<Rightarrow> (clearTimeout h s1)\<lparr>timeoutId := None\<rparr>
                   | None \<Rightarrow> s1)
         in console_log (newline @ emoji_stop_sign @ '' Monitor stopped'') s2))"

text \<open>
  The callback of a timer (lines 93 to 96), up to its \<^verbatim>\<open>await\<close>: the timer is no longer
  pending, and a check begins. \<open>None\<close>: no such timer is pending, it cannot fire.
\<close>

definition fire :: "nat \<Rightarrow> string \<Rightarrow> sys \<Rightarrow> sys option" where
  "fire h timestamp s =
     (if h \<in> fst ` set (timers s) then Some (checkSoldSeats_begin timestamp (clearTimeout h s))
      else None)"

text \<open>
  The request of the suspended check \<open>c\<close> settles: the check runs to its end and the code
  after the \<^verbatim>\<open>await\<close> of the caller runs, which is \<^verbatim>\<open>scheduleNext()\<close> in both callers.
  (The two run in consecutive microtasks; no timer, signal or response can come between
  them.) Were an error to leave the check, the promise of its caller would be rejected and
  the process would end with status 1 (the handler of line 186, or the runtime's
  treatment of an unhandled rejection).
\<close>

definition settle :: "nat \<Rightarrow> http_outcome \<Rightarrow> sys \<Rightarrow> sys option" where
  "settle c h s =
     (case map_of (inflight s) c of
        None \<Rightarrow> None
      | Some timestamp \<Rightarrow>
          (let s0 = s\<lparr>inflight := filter (\<lambda>(c', t). c' \<noteq> c) (inflight s)\<rparr> in
           case checkSoldSeats_resume timestamp h s0 of
             Inr s1 \<Rightarrow> Some (scheduleNext s1)
           | Inl (message, s1) \<Rightarrow> Some (s1\<lparr>exitStatus := Some 1\<rparr>)))"

text \<open>
  The response of the suspended check \<open>c\<close> is cut off: the headers have arrived, so the
  callback of line 22 has run, and the connection closes before the body is complete. The
  runtime reports this on the response (its events \<^verbatim>\<open>aborted\<close>, \<^verbatim>\<open>error\<close> and \<^verbatim>\<open>close\<close>), and
  \<^verbatim>\<open>fetchData\<close> listens on the response for \<^verbatim>\<open>data\<close> and \<^verbatim>\<open>end\<close> only; the request reports no
  error, and the timeout of a closed socket does not run. So none of \<^verbatim>\<open>resolve\<close> and
  \<^verbatim>\<open>reject\<close> is ever called: the check stays suspended at its \<^verbatim>\<open>await\<close>, and so does its
  caller, whose \<^verbatim>\<open>scheduleNext()\<close> is not reached.
\<close>

definition cutoff :: "nat \<Rightarrow> sys \<Rightarrow> sys option" where
  "cutoff c s =
     (case map_of (inflight s) c of
        None \<Rightarrow> None
      | Some timestamp \<Rightarrow>
          Some (s\<lparr>inflight := filter (\<lambda>(c', t). c' \<noteq> c) (inflight s),
                  stalled := stalled s @ [(c, timestamp)]\<rparr>))"

text \<open>The handlers of SIGINT and SIGTERM (lines 175 to 183).\<close>

definition signal :: "sys \<Rightarrow> sys" where
  "signal s = (stop s)\<lparr>exitStatus := Some 0\<rparr>"

subsection \<open>Runs\<close>

text \<open>
  What can happen to a monitor: a call of \<^verbatim>\<open>start()\<close> (with the time it reads), a call of
  \<^verbatim>\<open>stop()\<close>, a pending timer firing, the request of a suspended check settling, the
  response of a suspended check being cut off, a termination signal. Nothing happens in a
  process that has ended.
\<close>

datatype event =
  Start string | Stop | Fire nat string | Settle nat http_outcome | CutOff nat | Signal

definition step :: "event \<Rightarrow> sys \<Rightarrow> sys option" where
  "step e s =
     (if exitStatus s \<noteq> None then None
      else (case e of
              Start timestamp \<Rightarrow> Some (start timestamp s)
            | Stop \<Rightarrow> Some (stop s)
            | Fire h timestamp \<Rightarrow> fire h timestamp s
            | Settle c h \<Rightarrow> settle c h s
            | CutOff c \<Rightarrow> cutoff c s
            | Signal \<Rightarrow> Some (signal s)))"

fun exec :: "event list \<Rightarrow> sys \<Rightarrow> sys option" where
  "exec [] s = Some s"
| "exec (e # es) s = (case step e s of None \<Rightarrow> None | Some s' \<Rightarrow> exec es s')"

section \<open>The command line\<close>

text \<open>
  \<^verbatim>\<open>showHelp\<close> prints \<open>helpText\<close>. \<^verbatim>\<open>parseArguments\<close> (lines 117 to 145) scans
  \<^verbatim>\<open>process.argv.slice(2)\<close>; its result is what it printed and either the status of
  \<^verbatim>\<open>process.exit\<close> (\<open>Inl\<close>) or the interval it returns (\<open>Inr\<close>). \<^verbatim>\<open>main\<close> (lines 169 to
  195) starts a monitor with that interval, unless the process has exited. (Nothing in
  \<^verbatim>\<open>parseArguments\<close> or in the constructor throws, so the \<^verbatim>\<open>catch\<close> clause of \<^verbatim>\<open>main\<close>
  has no case here.)
\<close>

definition unlines :: "string list \<Rightarrow> string" where
  "unlines ls = concat (map (\<lambda>l. l @ newline) ls)"

definition helpText :: string where
  "helpText = newline @ unlines
     [emoji_ticket @ '' Seat Monitor - Track sold seats for events'',
      '''',
      ''Usage: node seat-monitor.js [options]'',
      '''',
      ''Options:'',
      ''  -i, --interval <minutes>    Check interval in minutes (default: 5)'',
      ''  -h, --help                  Show this help message'',
      '''',
      ''Examples:'',
      ''  node seat-monitor.js                    # Check every 5 minutes (default)'',
      ''  node seat-monitor.js --interval 2       # Check every 2 minutes'',
      ''  node seat-monitor.js -i 0.5             # Check every 30 seconds'',
      '''',
      ''The monitor tracks sold seats using the JMESPath expression:'',
      JMESPATH_EXPRESSION,
      '''',
      ''Press Ctrl+C to stop the monitor.'']"

fun parseArguments_loop :: "string list \<Rightarrow> jsnum \<Rightarrow> entry list \<times> (nat + jsnum)" where
  "parseArguments_loop [] minutes = ([], Inr minutes)"
| "parseArguments_loop (arg # rest) minutes =
     (if arg = ''--help'' \<or> arg = ''-h'' then ([Log helpText], Inl 0)
      else if arg = ''--interval'' \<or> arg = ''-i'' then
        (case rest of
           [] \<Rightarrow> ([Err ''Error: --interval requires a numeric value (minutes)''], Inl 1)
         | nextArg # rest' \<Rightarrow>
             if nextArg = [] \<or> js_isNaN nextArg then
               ([Err ''Error: --interval requires a numeric value (minutes)''], Inl 1)
             else if js_le_zero (parseFloat nextArg) then
               ([Err ''Error: Interval must be greater than 0''], Inl 1)
             else parseArguments_loop rest' (parseFloat nextArg))
      else parseArguments_loop rest minutes)"

definition parseArguments :: "string list \<Rightarrow> entry list \<times> (nat + jsnum)" where
  "parseArguments argv = parseArguments_loop (drop 2 argv) DEFAULT_INTERVAL"

datatype process = Exited nat "entry list" | Monitoring sys

definition main :: "string list \<Rightarrow> string \<Rightarrow> process" where
  "main argv timestamp =
     (case parseArguments argv of
        (out, Inl status) \<Rightarrow> Exited status out
      | (out, Inr minutes) \<Rightarrow>
          Monitoring (start timestamp ((SeatMonitor minutes)\<lparr>console := out\<rparr>)))"

section \<open>Notions the properties are stated with\<close>

text \<open>
  The metric a cycle obtains, if it obtains one: the request must end with a response, the
  body must parse and the query must evaluate. \<open>failure_message\<close> is the message of the
  error otherwise. \<open>report\<close> is the entry a completing cycle prints, given the count stored
  before it. An event is \<open>successful\<close> when it completes a check with a metric.
\<close>

fun metric_of :: "http_outcome \<Rightarrow> nat option" where
  "metric_of (ResponseEnd (Parses (SoldCount n))) = Some n"
| "metric_of (ResponseEnd (Parses (SearchThrows message))) = None"
| "metric_of (ResponseEnd (ParseThrows message)) = None"
| "metric_of (RequestError message) = None"
| "metric_of RequestTimeout = None"

fun failure_message :: "http_outcome \<Rightarrow> string" where
  "failure_message (ResponseEnd (Parses (SoldCount n))) = []"
| "failure_message (ResponseEnd (Parses (SearchThrows message))) = message"
| "failure_message (ResponseEnd (ParseThrows message)) = ''Failed to parse JSON: '' @ message"
| "failure_message (RequestError message) = ''Request failed: '' @ message"
| "failure_message RequestTimeout = ''Request timeout''"

fun successful :: "event \<Rightarrow> bool" where
  "successful (Settle c h) = (metric_of h \<noteq> None)"
| "successful e = False"

fun is_Start :: "event \<Rightarrow> bool" where
  "is_Start (Start timestamp) = True"
| "is_Start e = False"

definition report :: "string \<Rightarrow> http_outcome \<Rightarrow> nat option \<Rightarrow> entry" where
  "report ts h prev =
     (case metric_of h of
        Some n \<Rightarrow> Log (''['' @ ts @ ''] Sold seats: '' @ js_integer_text (int n) @
               (case prev of None \<Rightarrow> [] | Some p \<Rightarrow> '' '' @ changeText (int n - int p)))
      | None \<Rightarrow> Err (''['' @ ts @ ''] Error: '' @ failure_message h))"



text \<open>The events that stop a monitor.\<close>

fun is_Stop :: "event \<Rightarrow> bool" where
  "is_Stop Stop = True"
| "is_Stop Signal = True"
| "is_Stop e = False"

text \<open>The entry \<^verbatim>\<open>stop()\<close> prints (line 113).\<close>

definition shutdown_notice :: entry where
  "shutdown_notice = Log (newline @ emoji_stop_sign @ '' Monitor stopped'')"

text \<open>
  \<open>single_chain\<close>: at most one check is suspended or one timer pending, not both, and a
  pending timer is the one whose handle the running monitor holds. \<open>restart_safe es s\<close>: in
  the run \<open>es\<close> from \<open>s\<close>, \<^verbatim>\<open>start()\<close> is never called on a stopped monitor while a check
  begun earlier is still suspended.
\<close>

definition single_chain :: "sys \<Rightarrow> bool" where
  "single_chain s =
     (length (inflight s) + length (timers s) \<le> 1 \<and>
      (if timers s = [] then True
       else isRunning s \<and> timeoutId s = Some (fst (hd (timers s)))))"

fun restart_safe :: "event list \<Rightarrow> sys \<Rightarrow> bool" where
  "restart_safe [] s = True"
| "restart_safe (e # es) s =
     ((if is_Start e then isRunning s \<or> inflight s = [] else True) \<and>
      (case step e s of None \<Rightarrow> True | Some s' \<Rightarrow> restart_safe es s'))"

section \<open>What the operations change\<close>

lemma resume_success:
  "metric_of h = Some n \<Longrightarrow>
   checkSoldSeats_resume ts h s =
     Inr (s\<lparr>console := console s @
            [Log (''['' @ ts @ ''] Sold seats: '' @ js_integer_text (int n) @
               (case previousSoldCount s of None \<Rightarrow> [] | Some p \<Rightarrow> '' '' @ changeText (int n - int p)))],
          previousSoldCount := Some n\<rparr>)"
  by (cases h rule: metric_of.cases)
     (auto simp: checkSoldSeats_resume_def checkSoldSeats_try_def fetchData_def JSON_parse_def
        jmespath_search_def console_log_def split: option.splits)

lemma resume_failure:
  "metric_of h = None \<Longrightarrow>
   checkSoldSeats_resume ts h s =
     Inr (s\<lparr>console := console s @ [Err (''['' @ ts @ ''] Error: '' @ failure_message h)]\<rparr>)"
  by (cases h rule: metric_of.cases)
     (auto simp: checkSoldSeats_resume_def checkSoldSeats_try_def fetchData_def JSON_parse_def
        jmespath_search_def console_error_def split: option.splits)

lemma resume_total:
  "checkSoldSeats_resume ts h s =
     Inr (s\<lparr>console := console s @ [report ts h (previousSoldCount s)],
           previousSoldCount := (case metric_of h of Some n \<Rightarrow> Some n | None \<Rightarrow> previousSoldCount s)\<rparr>)"
  by (cases "metric_of h") (simp_all add: resume_success resume_failure report_def)

lemma settle_Some:
  "map_of (inflight s) c = Some ts \<Longrightarrow>
   settle c h s =
     Some (scheduleNext
       (s\<lparr>inflight := filter (\<lambda>(c', t). c' \<noteq> c) (inflight s),
          console := console s @ [report ts h (previousSoldCount s)],
          previousSoldCount := (case metric_of h of Some n \<Rightarrow> Some n | None \<Rightarrow> previousSoldCount s)\<rparr>))"
  by (cases "metric_of h") (simp_all add: settle_def resume_total Let_def)

lemma settle_None: "map_of (inflight s) c = None \<Longrightarrow> settle c h s = None"
  by (simp add: settle_def)

lemma scheduleNext_frame [simp]:
  "previousSoldCount (scheduleNext s) = previousSoldCount s"
  "console (scheduleNext s) = console s"
  "inflight (scheduleNext s) = inflight s"
  "nextCheck (scheduleNext s) = nextCheck s"
  "isRunning (scheduleNext s) = isRunning s"
  "exitStatus (scheduleNext s) = exitStatus s"
  by (simp_all add: scheduleNext_def setTimeout_def)

lemma scheduleNext_timers:
  "timers (scheduleNext s) = (if isRunning s then timers s @ [(nextTimer s, intervalMs s)] else timers s)"
  "timeoutId (scheduleNext s) = (if isRunning s then Some (nextTimer s) else timeoutId s)"
  by (simp_all add: scheduleNext_def setTimeout_def)

lemma begin_frame [simp]:
  "previousSoldCount (checkSoldSeats_begin ts s) = previousSoldCount s"
  "isRunning (checkSoldSeats_begin ts s) = isRunning s"
  "timers (checkSoldSeats_begin ts s) = timers s"
  "timeoutId (checkSoldSeats_begin ts s) = timeoutId s"
  "exitStatus (checkSoldSeats_begin ts s) = exitStatus s"
  "inflight (checkSoldSeats_begin ts s) = inflight s @ [(nextCheck s, ts)]"
  "nextCheck (checkSoldSeats_begin ts s) = Suc (nextCheck s)"
  by (simp_all add: checkSoldSeats_begin_def console_log_def Let_def)

lemma start_running: "isRunning s \<Longrightarrow> start ts s = s\<lparr>console := console s @ [Log ''Monitor is already running'']\<rparr>"
  by (simp add: start_def console_log_def)

lemma start_frame [simp]:
  "previousSoldCount (start ts s) = previousSoldCount s"
  "timers (start ts s) = timers s"
  "timeoutId (start ts s) = timeoutId s"
  "exitStatus (start ts s) = exitStatus s"
  "isRunning (start ts s) = True"
  by (simp_all add: start_def console_log_def Let_def)

lemma start_inflight:
  "inflight (start ts s) = (if isRunning s then inflight s else inflight s @ [(nextCheck s, ts)])"
  "nextCheck (start ts s) = (if isRunning s then nextCheck s else Suc (nextCheck s))"
  by (simp_all add: start_def console_log_def Let_def)

lemma stop_frame [simp]:
  "previousSoldCount (stop s) = previousSoldCount s"
  "inflight (stop s) = inflight s"
  "nextCheck (stop s) = nextCheck s"
  "exitStatus (stop s) = exitStatus s"
  "isRunning (stop s) = False"
  by (simp_all add: stop_def console_log_def clearTimeout_def Let_def split: option.splits)

lemma stop_timers:
  "timers (stop s) = (if isRunning s then filter (\<lambda>(h, d). Some h \<noteq> timeoutId s) (timers s) else timers s)"
  by (cases "timeoutId s") (auto simp add: stop_def console_log_def clearTimeout_def Let_def intro: filter_cong)

lemma stop_timeoutId:
  "timeoutId (stop s) = (if isRunning s then None else timeoutId s)"
  by (simp add: stop_def console_log_def clearTimeout_def Let_def split: option.splits)

lemma step_previousSoldCount:
  "step e s = Some s' \<Longrightarrow> \<not> successful e \<Longrightarrow> previousSoldCount s' = previousSoldCount s"
  by (cases e) (auto simp: step_def fire_def signal_def clearTimeout_def settle_def cutoff_def
       resume_total split: if_splits option.splits)

lemma exec_previousSoldCount:
  "exec es s = Some s' \<Longrightarrow> list_all (\<lambda>e. \<not> successful e) es \<Longrightarrow> previousSoldCount s' = previousSoldCount s"
proof (induction es arbitrary: s)
  case Nil
  then show ?case by simp
next
  case (Cons e es)
  then obtain s1 where s1: "step e s = Some s1" "exec es s1 = Some s'"
    by (auto split: option.splits)
  with Cons show ?case by (simp add: step_previousSoldCount)
qed

lemma single_chain_init: "single_chain (SeatMonitor m)"
  by (simp add: single_chain_def SeatMonitor_def)

lemma single_chain_step:
  assumes "single_chain s" "step e s = Some s'" "is_Start e \<Longrightarrow> isRunning s \<or> inflight s = []"
  shows "single_chain s'"
proof (cases e)
  case (Start ts)
  with assms show ?thesis
    by (auto simp: step_def single_chain_def start_inflight split: if_splits)
next
  case Stop
  with assms show ?thesis
    by (cases "timers s") (auto simp: step_def single_chain_def stop_timers stop_timeoutId split: if_splits)
next
  case (Fire h ts)
  with assms show ?thesis
    by (cases "timers s") (auto simp: step_def single_chain_def fire_def clearTimeout_def split: if_splits)
next
  case (Settle c h)
  with assms obtain ts where ts: "map_of (inflight s) c = Some ts"
    by (cases "map_of (inflight s) c") (auto simp: step_def settle_None split: if_splits)
  from assms(1) ts obtain x where x: "inflight s = [x]" "timers s = []"
    by (cases "inflight s") (auto simp: single_chain_def split: if_splits)
  with ts have "fst x = c" by (cases x) (auto split: if_splits)
  with assms Settle ts x show ?thesis
    by (cases x) (auto simp: step_def settle_Some single_chain_def scheduleNext_timers split: if_splits)
next
  case (CutOff c)
  with assms obtain ts where ts: "map_of (inflight s) c = Some ts"
    by (cases "map_of (inflight s) c") (auto simp: step_def cutoff_def split: if_splits)
  have "length (filter (\<lambda>(c', t). c' \<noteq> c) (inflight s)) + length (timers s)
          \<le> length (inflight s) + length (timers s)"
    by simp
  also from assms(1) have "\<dots> \<le> 1" by (simp add: single_chain_def)
  finally have fewer: "length (filter (\<lambda>(c', t). c' \<noteq> c) (inflight s)) + length (timers s) \<le> 1" .
  from assms CutOff ts have s': "s' = s\<lparr>inflight := filter (\<lambda>(c', t). c' \<noteq> c) (inflight s),
                                          stalled := stalled s @ [(c, ts)]\<rparr>"
    by (auto simp: step_def cutoff_def split: if_splits)
  from assms(1) fewer show ?thesis
    by (simp add: s' single_chain_def)
next
  case Signal
  with assms show ?thesis
    by (cases "timers s") (auto simp: step_def signal_def single_chain_def stop_timers stop_timeoutId split: if_splits)
qed

lemma single_chain_exec:
  "single_chain s \<Longrightarrow> exec es s = Some s' \<Longrightarrow> restart_safe es s \<Longrightarrow> single_chain s'"
proof (induction es arbitrary: s)
  case Nil
  then show ?case by simp
next
  case (Cons e es)
  then obtain s1 where s1: "step e s = Some s1" "exec es s1 = Some s'"
    by (auto split: option.splits)
  with Cons.prems have "single_chain s1"
    by (intro single_chain_step[of s e s1]) auto
  with Cons s1 show ?case by simp
qed

lemma stopped_step:
  assumes "\<not> isRunning s" "timers s = []" "step e s = Some s'" "\<not> is_Start e"
  shows "\<not> isRunning s' \<and> timers s' = [] \<and> nextCheck s' = nextCheck s"
proof (cases e)
  case (Settle c h)
  with assms obtain ts where ts: "map_of (inflight s) c = Some ts"
    by (cases "map_of (inflight s) c") (auto simp: step_def settle_None split: if_splits)
  with assms Settle show ?thesis
    by (auto simp: step_def settle_Some scheduleNext_timers split: if_splits)
qed (use assms in \<open>auto simp: step_def fire_def signal_def cutoff_def stop_timers
          split: if_splits option.splits\<close>)

lemma stopped_exec:
  "\<not> isRunning s \<Longrightarrow> timers s = [] \<Longrightarrow> exec es s = Some s' \<Longrightarrow> list_all (\<lambda>e. \<not> is_Start e) es
   \<Longrightarrow> \<not> isRunning s' \<and> timers s' = [] \<and> nextCheck s' = nextCheck s"
proof (induction es arbitrary: s)
  case Nil
  then show ?case by simp
next
  case (Cons e es)
  then obtain s1 where s1: "step e s = Some s1" "exec es s1 = Some s'"
    by (auto split: option.splits)
  with Cons.prems have 1: "\<not> isRunning s1 \<and> timers s1 = [] \<and> nextCheck s1 = nextCheck s"
    by (intro stopped_step[of s e s1]) auto
  with Cons.prems s1 have "\<not> isRunning s' \<and> timers s' = [] \<and> nextCheck s' = nextCheck s1"
    by (intro Cons.IH) auto
  with 1 show ?case by simp
qed

lemma js_integer_text_nat: "js_integer_text (int n) = decimal n"
  by (simp add: js_integer_text_def)

lemma changeText_nat:
  "changeText (int b - int a) =
     (if a < b then ''(+'' @ decimal (b - a) @ '')''
      else if b < a then ''(-'' @ decimal (a - b) @ '')''
      else ''(no change)'')"
  by (auto simp: changeText_def js_integer_text_def nat_diff_distrib' of_nat_diff)

lemmas cycle_defs =
  checkSoldSeats_resume_def checkSoldSeats_try_def fetchData_def JSON_parse_def jmespath_search_def
  console_log_def console_error_def changeText_def js_integer_text_def

lemmas run_defs =
  step_def start_def stop_def fire_def settle_def cutoff_def signal_def scheduleNext_def
  setTimeout_def clearTimeout_def checkSoldSeats_begin_def SeatMonitor_def round_double_def Let_def

section \<open>The claims about one check cycle\<close>

text \<open>
  Claim C3. A check that obtains the metric \<open>b\<close> while the stored count is \<open>a\<close> (both natural
  numbers) prints the line \<^verbatim>\<open>[timestamp] Sold seats: b\<close> followed by a space and the
  annotation: \<^verbatim>\<open>(+N)\<close> with \<open>N = b - a\<close> when \<open>b > a\<close>, \<^verbatim>\<open>(-N)\<close> with \<open>N = a - b\<close> (the minus
  sign JavaScript prints) when \<open>b < a\<close>, and \<^verbatim>\<open>(no change)\<close> when they are equal; it stores \<open>b\<close>
  and changes nothing else.
\<close>

theorem delta_annotation:
  assumes "previousSoldCount s = Some a"
  shows "checkSoldSeats_resume ts (ResponseEnd (Parses (SoldCount b))) s =
     Inr (s\<lparr>console := console s @
            [Log (''['' @ ts @ ''] Sold seats: '' @ decimal b @ '' '' @
               (if a < b then ''(+'' @ decimal (b - a) @ '')''
                else if b < a then ''(-'' @ decimal (a - b) @ '')''
                else ''(no change)''))],
          previousSoldCount := Some b\<rparr>)"
  using assms by (simp add: resume_success js_integer_text_nat changeText_nat)

theorem delta_annotation_witness:
  "checkSoldSeats_resume ''T'' (ResponseEnd (Parses (SoldCount 5))) ((SeatMonitor (Num 5))\<lparr>previousSoldCount := Some 3\<rparr>) =
     Inr ((SeatMonitor (Num 5))\<lparr>console := [Log ''[T] Sold seats: 5 (+2)''], previousSoldCount := Some 5\<rparr>)
   \<and> checkSoldSeats_resume ''T'' (ResponseEnd (Parses (SoldCount 3))) ((SeatMonitor (Num 5))\<lparr>previousSoldCount := Some 15\<rparr>) =
     Inr ((SeatMonitor (Num 5))\<lparr>console := [Log ''[T] Sold seats: 3 (-12)''], previousSoldCount := Some 3\<rparr>)
   \<and> checkSoldSeats_resume ''T'' (ResponseEnd (Parses (SoldCount 4))) ((SeatMonitor (Num 5))\<lparr>previousSoldCount := Some 4\<rparr>) =
     Inr ((SeatMonitor (Num 5))\<lparr>console := [Log ''[T] Sold seats: 4 (no change)''], previousSoldCount := Some 4\<rparr>)"
  using delta_annotation [of "(SeatMonitor (Num 5))\<lparr>previousSoldCount := Some 3\<rparr>" 3 "''T''" 5]
        delta_annotation [of "(SeatMonitor (Num 5))\<lparr>previousSoldCount := Some 15\<rparr>" 15 "''T''" 3]
        delta_annotation [of "(SeatMonitor (Num 5))\<lparr>previousSoldCount := Some 4\<rparr>" 4 "''T''" 4]
  by (simp add: SeatMonitor_def decimal.simps)

text \<open>
  When the request settles, in any of the three ways, the check completes normally and
  prints its line (\<open>resume_total\<close>: the metric, or the error with its message), and the
  caller goes on to \<^verbatim>\<open>scheduleNext()\<close>. A response that is cut off is not among them. A
  running monitor with no timer pending and no check suspended stays so, whatever happens
  short of \<^verbatim>\<open>stop()\<close> or a signal: no timer can fire, no request can settle, and
  \<^verbatim>\<open>start()\<close> finds the monitor running.
\<close>

lemma stalled_monitor_step:
  assumes "isRunning s" "timers s = []" "inflight s = []" "step e s = Some s'" "\<not> is_Stop e"
  shows "isRunning s' \<and> timers s' = [] \<and> inflight s' = [] \<and> nextCheck s' = nextCheck s"
  using assms
  by (cases e) (auto simp: step_def start_running fire_def settle_def cutoff_def split: if_splits)

lemma stalled_monitor_exec:
  "isRunning s \<Longrightarrow> timers s = [] \<Longrightarrow> inflight s = [] \<Longrightarrow> exec es s = Some s' \<Longrightarrow>
   list_all (\<lambda>e. \<not> is_Stop e) es \<Longrightarrow>
   isRunning s' \<and> timers s' = [] \<and> inflight s' = [] \<and> nextCheck s' = nextCheck s"
proof (induction es arbitrary: s)
  case Nil
  then show ?case by simp
next
  case (Cons e es)
  then obtain s1 where s1: "step e s = Some s1" "exec es s1 = Some s'"
    by (auto split: option.splits)
  from Cons.prems s1 have 1: "isRunning s1 \<and> timers s1 = [] \<and> inflight s1 = [] \<and> nextCheck s1 = nextCheck s"
    by (intro stalled_monitor_step [of s e s1]) auto
  with Cons.prems s1 have "isRunning s' \<and> timers s' = [] \<and> inflight s' = [] \<and> nextCheck s' = nextCheck s1"
    by (intro Cons.IH [of s1]) auto
  with 1 show ?case by simp
qed

text \<open>
  Claim C5 does not hold of every outcome of a cycle. The first check succeeds, the timer
  fires, and the response of the second check is cut off: \<^verbatim>\<open>checkSoldSeats\<close> does not
  complete, no error is caught or printed (the last line is the one that announces the
  check), and \<^verbatim>\<open>scheduleNext()\<close> is not reached. The process is alive and the monitor is
  marked running, but no timer is pending and no request can settle: polling has stopped,
  and \<^verbatim>\<open>start()\<close> does not begin a check either.
\<close>

theorem cut_off_response_stops_polling:
  "\<exists>s. exec [Start ''t0'', Settle 0 (ResponseEnd (Parses (SoldCount 3))), Fire 0 ''t1'', CutOff 1]
            (SeatMonitor (Num 5)) = Some s \<and>
        isRunning s \<and> exitStatus s = None \<and>
        stalled s = [(1, ''t1'')] \<and> inflight s = [] \<and> timers s = [] \<and>
        last (console s) = Log ''[t1] Checking sold seats...'' \<and>
        (\<forall>h ts. fire h ts s = None) \<and> (\<forall>c h. settle c h s = None) \<and>
        (\<forall>ts. nextCheck (start ts s) = nextCheck s)"
  by (simp add: run_defs cycle_defs decimal.simps)

lemma report_success:
  "metric_of h = Some n \<Longrightarrow>
   report ts h prev =
     (case prev of
        Some a \<Rightarrow> Log (''['' @ ts @ ''] Sold seats: '' @ decimal n @ '' '' @ changeText (int n - int a))
      | None \<Rightarrow> Log (''['' @ ts @ ''] Sold seats: '' @ decimal n))"
  by (simp add: report_def js_integer_text_nat split: option.splits)

lemma settle_console:
  "map_of (inflight s) c = Some ts \<Longrightarrow>
   \<exists>s'. settle c h s = Some s' \<and>
        console s' = console s @ [report ts h (previousSoldCount s)] \<and>
        previousSoldCount s' = (case metric_of h of Some n \<Rightarrow> Some n | None \<Rightarrow> previousSoldCount s)"
  by (simp add: settle_Some)

text \<open>
  Claim C1. \<^verbatim>\<open>previousSoldCount\<close> is written exactly by the cycles that complete without
  error. Let a run contain no successful completion (any number of failed cycles, timer
  firings and calls of start and stop): it leaves the field as it was. If a check then
  completes with a request, parse or query failure, the field still has that value; if it
  completes with the metric \<open>n\<close>, the field becomes \<open>n\<close> and the line it prints carries the
  change against the value stored before the failed cycles (no annotation when nothing
  was stored).
\<close>

theorem previous_count_updated_iff_success:
  assumes "exec es s = Some s1"
    and "list_all (\<lambda>e. \<not> successful e) es"
    and "map_of (inflight s1) c = Some ts"
  shows "\<exists>s2. settle c h s1 = Some s2 \<and>
     (case metric_of h of
        None \<Rightarrow> previousSoldCount s2 = previousSoldCount s
      | Some n \<Rightarrow>
          previousSoldCount s2 = Some n \<and>
          (case previousSoldCount s of
             Some a \<Rightarrow> console s2 = console s1 @
                 [Log (''['' @ ts @ ''] Sold seats: '' @ decimal n @ '' '' @ changeText (int n - int a))]
           | None \<Rightarrow> console s2 = console s1 @ [Log (''['' @ ts @ ''] Sold seats: '' @ decimal n)]))"
proof -
  from assms(1,2) have same: "previousSoldCount s1 = previousSoldCount s"
    by (rule exec_previousSoldCount)
  from settle_console [OF assms(3), of h] obtain s2 where
    s2: "settle c h s1 = Some s2"
        "console s2 = console s1 @ [report ts h (previousSoldCount s1)]"
        "previousSoldCount s2 = (case metric_of h of Some n \<Rightarrow> Some n | None \<Rightarrow> previousSoldCount s1)"
    by blast
  show ?thesis
  proof (cases "metric_of h")
    case None
    with s2 same show ?thesis by simp
  next
    case (Some n)
    with s2 same show ?thesis
      by (simp add: report_success split: option.splits)
  qed
qed

theorem previous_count_updated_iff_success_witness:
  "\<exists>s1 s2.
     exec [Start ''t0'', Settle 0 RequestTimeout, Fire 0 ''t1'']
          ((SeatMonitor (Num 5))\<lparr>previousSoldCount := Some 3\<rparr>) = Some s1 \<and>
     previousSoldCount s1 = Some 3 \<and>
     settle 1 (ResponseEnd (Parses (SoldCount 5))) s1 = Some s2 \<and>
     previousSoldCount s2 = Some 5 \<and>
     console s2 = console s1 @ [Log ''[t1] Sold seats: 5 (+2)'']"
proof -
  let ?s = "(SeatMonitor (Num 5))\<lparr>previousSoldCount := Some 3\<rparr>"
  let ?es = "[Start ''t0'', Settle 0 RequestTimeout, Fire 0 ''t1'']"
  have "\<exists>s1. exec ?es ?s = Some s1 \<and> map_of (inflight s1) 1 = Some ''t1'' \<and> previousSoldCount s1 = Some 3"
    by (simp add: run_defs cycle_defs)
  then obtain s1 where s1: "exec ?es ?s = Some s1" "map_of (inflight s1) 1 = Some ''t1''"
      "previousSoldCount s1 = Some 3"
    by blast
  have quiet: "list_all (\<lambda>e. \<not> successful e) ?es" by simp
  have prev: "previousSoldCount ?s = Some 3" by simp
  from previous_count_updated_iff_success [OF s1(1) quiet s1(2), of "ResponseEnd (Parses (SoldCount 5))"]
  obtain s2 where "settle 1 (ResponseEnd (Parses (SoldCount 5))) s1 = Some s2"
     "previousSoldCount s2 = Some 5" "console s2 = console s1 @ [Log ''[t1] Sold seats: 5 (+2)'']"
    by (auto simp: prev changeText_def js_integer_text_def decimal.simps)
  with s1 show ?thesis by blast
qed

text \<open>
  Claim C7. In a run from a newly constructed monitor in which no check has succeeded yet,
  \<^verbatim>\<open>previousSoldCount\<close> is still absent, and the first check to succeed prints
  \<^verbatim>\<open>[timestamp] Sold seats: n\<close> with nothing after the metric.
\<close>

theorem first_success_has_no_delta:
  assumes "exec es (SeatMonitor minutes) = Some s"
    and "list_all (\<lambda>e. \<not> successful e) es"
    and "map_of (inflight s) c = Some ts"
    and "metric_of h = Some n"
  shows "previousSoldCount s = None \<and>
     (\<exists>s'. settle c h s = Some s' \<and>
        console s' = console s @ [Log (''['' @ ts @ ''] Sold seats: '' @ decimal n)])"
proof -
  from assms(1,2) have none: "previousSoldCount s = None"
    by (simp add: exec_previousSoldCount SeatMonitor_def)
  from settle_console [OF assms(3), of h] none assms(4) show ?thesis
    by (auto simp: report_success)
qed

theorem first_success_has_no_delta_witness:
  "\<exists>s s'.
     exec [Start ''t0'', Settle 0 (RequestError ''ECONNRESET''), Fire 0 ''t1''] (SeatMonitor (Num 5)) = Some s \<and>
     previousSoldCount s = None \<and>
     settle 1 (ResponseEnd (Parses (SoldCount 3))) s = Some s' \<and>
     console s' = console s @ [Log ''[t1] Sold seats: 3'']"
proof -
  let ?es = "[Start ''t0'', Settle 0 (RequestError ''ECONNRESET''), Fire 0 ''t1'']"
  have "\<exists>s. exec ?es (SeatMonitor (Num 5)) = Some s \<and> map_of (inflight s) 1 = Some ''t1''"
    by (simp add: run_defs cycle_defs)
  then obtain s where s: "exec ?es (SeatMonitor (Num 5)) = Some s" "map_of (inflight s) 1 = Some ''t1''"
    by blast
  have quiet: "list_all (\<lambda>e. \<not> successful e) ?es" by simp
  have ok: "metric_of (ResponseEnd (Parses (SoldCount 3))) = Some 3" by simp
  from first_success_has_no_delta [OF s(1) quiet s(2) ok] s(1) show ?thesis
    by (auto simp: decimal.simps)
qed

section \<open>The claims about start and stop\<close>

text \<open>
  Claim C9. \<^verbatim>\<open>start()\<close> on a running monitor prints \<^verbatim>\<open>Monitor is already running\<close> and does
  nothing else: the state is the same but for that line, so no check is begun, no timer is
  armed, and every field of the monitor keeps its value.
\<close>

theorem start_while_running:
  assumes "isRunning s"
  shows "start ts s = s\<lparr>console := console s @ [Log ''Monitor is already running'']\<rparr> \<and>
         inflight (start ts s) = inflight s \<and> nextCheck (start ts s) = nextCheck s \<and>
         timers (start ts s) = timers s \<and> nextTimer (start ts s) = nextTimer s \<and>
         timeoutId (start ts s) = timeoutId s \<and> isRunning (start ts s) \<and>
         previousSoldCount (start ts s) = previousSoldCount s"
  using assms by (simp add: start_running)

theorem start_while_running_witness:
  "isRunning (start ''t0'' (SeatMonitor (Num 5))) \<and>
   start ''t1'' (start ''t0'' (SeatMonitor (Num 5))) =
     (start ''t0'' (SeatMonitor (Num 5)))
       \<lparr>console := console (start ''t0'' (SeatMonitor (Num 5))) @ [Log ''Monitor is already running'']\<rparr> \<and>
   map fst (inflight (start ''t1'' (start ''t0'' (SeatMonitor (Num 5))))) = [0] \<and>
   timers (start ''t1'' (start ''t0'' (SeatMonitor (Num 5)))) = []"
proof -
  have r: "isRunning (start ''t0'' (SeatMonitor (Num 5)))" by simp
  have i: "map fst (inflight (start ''t0'' (SeatMonitor (Num 5)))) = [0]"
          "timers (start ''t0'' (SeatMonitor (Num 5))) = []"
    by (simp_all add: start_inflight SeatMonitor_def)
  from start_while_running [OF r, of "''t1''"] r i show ?thesis by simp
qed

lemma step_previousSoldCount_kept:
  "step e s = Some s' \<Longrightarrow> previousSoldCount s \<noteq> None \<Longrightarrow> previousSoldCount s' \<noteq> None"
  by (cases e)
     (auto simp: step_def fire_def signal_def clearTimeout_def settle_def cutoff_def resume_total
       Let_def split: if_splits option.splits)

lemma exec_previousSoldCount_kept:
  "exec es s = Some s' \<Longrightarrow> previousSoldCount s \<noteq> None \<Longrightarrow> previousSoldCount s' \<noteq> None"
proof (induction es arbitrary: s)
  case Nil
  then show ?case by simp
next
  case (Cons e es)
  then obtain s1 where s1: "step e s = Some s1" "exec es s1 = Some s'"
    by (auto split: option.splits)
  from s1(1) Cons.prems(2) have "previousSoldCount s1 \<noteq> None"
    by (rule step_previousSoldCount_kept)
  with s1(2) show ?case by (rule Cons.IH)
qed

text \<open>
  Claim C10. Once a check has completed with a metric, \<^verbatim>\<open>previousSoldCount\<close> holds a count
  in every state that any run reaches from there: no call of start or stop, no timer, no
  signal and no later check, failed or successful, makes it absent again. So every later
  check that obtains a metric prints its line with the annotation of the change against
  the stored count.
\<close>

theorem count_never_reset:
  assumes "settle c h s = Some s1" and "metric_of h = Some n" and "exec es s1 = Some s2"
  shows "previousSoldCount s1 = Some n \<and> previousSoldCount s2 \<noteq> None \<and>
     (\<forall>c' ts' h' n'. map_of (inflight s2) c' = Some ts' \<longrightarrow> metric_of h' = Some n' \<longrightarrow>
        (\<exists>s3 p. previousSoldCount s2 = Some p \<and> settle c' h' s2 = Some s3 \<and>
           console s3 = console s2 @
             [Log (''['' @ ts' @ ''] Sold seats: '' @ decimal n' @ '' '' @ changeText (int n' - int p))]))"
proof (intro conjI allI impI)
  from assms(1) obtain ts where "map_of (inflight s) c = Some ts"
    by (cases "map_of (inflight s) c") (auto simp: settle_None)
  from settle_console [OF this, of h] assms(1,2) show 1: "previousSoldCount s1 = Some n"
    by auto
  with assms(3) show 2: "previousSoldCount s2 \<noteq> None"
    by (auto dest: exec_previousSoldCount_kept)
  fix c' ts' h' n'
  assume "map_of (inflight s2) c' = Some ts'" "metric_of h' = Some n'"
  with settle_console [of s2 c' ts' h'] 2
  show "\<exists>s3 p. previousSoldCount s2 = Some p \<and> settle c' h' s2 = Some s3 \<and>
           console s3 = console s2 @
             [Log (''['' @ ts' @ ''] Sold seats: '' @ decimal n' @ '' '' @ changeText (int n' - int p))]"
    by (auto simp: report_success)
qed

theorem count_never_reset_witness:
  "\<exists>s1 s2 s3.
     settle 0 (ResponseEnd (Parses (SoldCount 3))) (start ''t0'' (SeatMonitor (Num 5))) = Some s1 \<and>
     exec [Stop, Start ''t1'', Settle 1 RequestTimeout, Fire 1 ''t2''] s1 = Some s2 \<and>
     previousSoldCount s2 = Some 3 \<and>
     settle 2 (ResponseEnd (Parses (SoldCount 2))) s2 = Some s3 \<and>
     console s3 = console s2 @ [Log ''[t2] Sold seats: 2 (-1)'']"
proof -
  let ?es = "[Stop, Start ''t1'', Settle 1 RequestTimeout, Fire 1 ''t2'']"
  have "\<exists>s1. settle 0 (ResponseEnd (Parses (SoldCount 3))) (start ''t0'' (SeatMonitor (Num 5))) = Some s1 \<and>
     (\<exists>s2. exec ?es s1 = Some s2 \<and> map_of (inflight s2) 2 = Some ''t2'' \<and> previousSoldCount s2 = Some 3)"
    by (simp add: run_defs cycle_defs)
  then obtain s1 s2 where
    s: "settle 0 (ResponseEnd (Parses (SoldCount 3))) (start ''t0'' (SeatMonitor (Num 5))) = Some s1"
       "exec ?es s1 = Some s2" "map_of (inflight s2) 2 = Some ''t2''" "previousSoldCount s2 = Some 3"
    by blast
  have ok: "metric_of (ResponseEnd (Parses (SoldCount 3))) = Some 3"
           "metric_of (ResponseEnd (Parses (SoldCount 2))) = Some 2" by simp_all
  from count_never_reset [OF s(1) ok(1) s(2)] s(3,4) ok(2)
  obtain s3 where "settle 2 (ResponseEnd (Parses (SoldCount 2))) s2 = Some s3"
    "console s3 = console s2 @ [Log (''['' @ ''t2'' @ ''] Sold seats: '' @ decimal 2 @ '' '' @ changeText (int 2 - int 3))]"
    by fastforce
  then have "settle 2 (ResponseEnd (Parses (SoldCount 2))) s2 = Some s3 \<and>
    console s3 = console s2 @ [Log ''[t2] Sold seats: 2 (-1)'']"
    by (simp add: changeText_def js_integer_text_def decimal.simps)
  with s show ?thesis by blast
qed

lemma stop_not_running: "\<not> isRunning s \<Longrightarrow> stop s = s"
  by (simp add: stop_def)

lemma stop_console: "isRunning s \<Longrightarrow> console (stop s) = console s @ [shutdown_notice]"
  by (simp add: stop_def console_log_def clearTimeout_def shutdown_notice_def Let_def split: option.splits)

lemma single_chain_stop_timers: "single_chain s \<Longrightarrow> timers (stop s) = []"
  by (cases "timers s") (auto simp: single_chain_def stop_timers split: if_splits)

text \<open>
  What holds of \<^verbatim>\<open>stop()\<close> in every state: on a monitor that is not running it changes
  nothing and prints nothing; a second call right after a first is such a call, so two
  calls in a row print the shutdown notice once if the monitor was running. On a running
  monitor one call marks it not running, prints the notice, clears the timer whose handle
  the monitor holds and forgets the handle; when the monitor runs a single chain, no
  timer is left.
\<close>

lemma stop_idempotent:
  "(\<not> isRunning s \<longrightarrow> stop s = s) \<and>
   stop (stop s) = stop s \<and>
   count_list (console (stop (stop s))) shutdown_notice =
     count_list (console s) shutdown_notice + (if isRunning s then 1 else 0) \<and>
   (isRunning s \<longrightarrow>
      \<not> isRunning (stop s) \<and> timeoutId (stop s) = None \<and>
      console (stop s) = console s @ [shutdown_notice] \<and>
      timers (stop s) = filter (\<lambda>(h, d). Some h \<noteq> timeoutId s) (timers s) \<and>
      (single_chain s \<longrightarrow> timers (stop s) = []))"
proof -
  have twice: "stop (stop s) = stop s"
    by (rule stop_not_running) simp
  have "count_list (console (stop s)) shutdown_notice =
          count_list (console s) shutdown_notice + (if isRunning s then 1 else 0)"
    by (cases "isRunning s") (simp_all add: stop_console stop_not_running)
  moreover have "single_chain s \<longrightarrow> timers (stop s) = []"
    by (simp add: single_chain_stop_timers)
  moreover have "isRunning s \<longrightarrow>
      timers (stop s) = filter (\<lambda>(h, d). Some h \<noteq> timeoutId s) (timers s)"
    by (simp add: stop_timers)
  ultimately show ?thesis using twice
    by (simp add: stop_not_running stop_console stop_timeoutId)
qed

text \<open>
  Claim C8 holds in its parts on idempotence and fails in the last: on a running monitor
  \<^verbatim>\<open>stop()\<close> cancels the timer whose handle it holds, not any pending timer. After
  \<^verbatim>\<open>start(); stop(); start()\<close> during the first check and the completion of both checks,
  two timers are pending; \<^verbatim>\<open>stop()\<close> marks the monitor not running and clears the second,
  and the first is still pending and can fire.
\<close>

theorem stop_clears_only_held_timer:
  "\<exists>s.
     exec [Start ''t0'', Stop, Start ''t1'',
           Settle 0 (ResponseEnd (Parses (SoldCount 3))), Settle 1 (ResponseEnd (Parses (SoldCount 3)))]
          (SeatMonitor (Num 5)) = Some s \<and>
     isRunning s \<and> timers s = [(0, Num 300000), (1, Num 300000)] \<and> timeoutId s = Some 1 \<and>
     \<not> isRunning (stop s) \<and> timeoutId (stop s) = None \<and>
     timers (stop s) = [(0, Num 300000)] \<and>
     fire 0 ''t2'' (stop s) \<noteq> None"
  by (simp add: run_defs cycle_defs decimal.simps)

lemma quiescent_step:
  assumes "\<not> isRunning s" "timers s = []" "inflight s = []" "step e s = Some s'" "\<not> is_Start e"
  shows "inflight s' = []"
  using assms
  by (cases e) (auto simp: step_def fire_def signal_def settle_def cutoff_def split: if_splits)

lemma quiescent_exec:
  "\<not> isRunning s \<Longrightarrow> timers s = [] \<Longrightarrow> inflight s = [] \<Longrightarrow> exec es s = Some s' \<Longrightarrow>
   list_all (\<lambda>e. \<not> is_Start e) es \<Longrightarrow> inflight s' = []"
proof (induction es arbitrary: s)
  case Nil
  then show ?case by simp
next
  case (Cons e es)
  then obtain s1 where s1: "step e s = Some s1" "exec es s1 = Some s'"
    by (auto split: option.splits)
  from Cons.prems s1 have "\<not> isRunning s1 \<and> timers s1 = [] \<and> nextCheck s1 = nextCheck s"
    by (intro stopped_step[of s e s1]) auto
  moreover from Cons.prems s1 have "inflight s1 = []"
    by (intro quiescent_step[of s e s1]) auto
  ultimately show ?case using Cons.prems s1 by (intro Cons.IH[of s1]) auto
qed

lemma restart_safe_single_chain:
  assumes "exec es (SeatMonitor minutes) = Some s" and "restart_safe es (SeatMonitor minutes)"
  shows "length (timers s) \<le> 1 \<and> length (inflight s) \<le> 1 \<and> (timers s = [] \<or> inflight s = [])"
proof -
  from single_chain_init assms have "single_chain s" by (rule single_chain_exec)
  then show ?thesis by (cases "timers s"; cases "inflight s") (auto simp: single_chain_def)
qed

text \<open>
  A run without a call of \<^verbatim>\<open>start()\<close> is safe in this sense, so the runs of the program
  itself, where \<^verbatim>\<open>main\<close> calls \<^verbatim>\<open>start()\<close> once, keep a single chain.
\<close>

lemma restart_safe_no_start: "list_all (\<lambda>e. \<not> is_Start e) es \<Longrightarrow> restart_safe es s"
  by (induction es arbitrary: s) (auto split: option.splits)

lemma single_start_single_chain:
  assumes "exec (Start ts # es) (SeatMonitor minutes) = Some s" and "list_all (\<lambda>e. \<not> is_Start e) es"
  shows "length (timers s) \<le> 1 \<and> length (inflight s) \<le> 1 \<and> (timers s = [] \<or> inflight s = [])"
proof -
  have "restart_safe (Start ts # es) (SeatMonitor minutes)"
    using assms(2) by (simp add: restart_safe_no_start SeatMonitor_def split: option.splits)
  with assms(1) show ?thesis by (rule restart_safe_single_chain)
qed

lemma loop_returns_silently:
  "parseArguments_loop args minutes = (out, Inr m) \<Longrightarrow> out = []"
proof (induction args minutes rule: parseArguments_loop.induct)
  case (1 minutes)
  then show ?case by simp
next
  case (2 arg rest minutes)
  then show ?case
    by (cases rest) (auto split: if_splits)
qed

lemma main_starts_once:
  assumes "main argv ts = Monitoring s"
  shows "\<exists>m. parseArguments argv = ([], Inr m) \<and> exec [Start ts] (SeatMonitor m) = Some s"
proof -
  from assms obtain out m where p: "parseArguments argv = (out, Inr m)"
      and s: "s = start ts ((SeatMonitor m)\<lparr>console := out\<rparr>)"
    by (cases "parseArguments argv" rule: prod.exhaust; cases "snd (parseArguments argv)")
       (auto simp: main_def)
  from p have "out = []" by (simp add: parseArguments_def loop_returns_silently)
  with p s show ?thesis by (auto simp: step_def SeatMonitor_def)
qed

lemma program_keeps_single_chain:
  assumes "main argv ts = Monitoring s0" and "exec es s0 = Some s"
    and "list_all (\<lambda>e. \<not> is_Start e) es"
  shows "length (timers s) \<le> 1 \<and> length (inflight s) \<le> 1 \<and> (timers s = [] \<or> inflight s = [])"
proof -
  from main_starts_once [OF assms(1)] obtain m where "exec [Start ts] (SeatMonitor m) = Some s0"
    by blast
  with assms(2) have "exec (Start ts # es) (SeatMonitor m) = Some s"
    by (simp split: option.splits)
  with assms(3) show ?thesis by (intro single_start_single_chain)
qed


text \<open>
  In a run in which \<^verbatim>\<open>start()\<close> is never called on a stopped monitor while an earlier
  check is still suspended, \<^verbatim>\<open>stop()\<close> leaves no timer pending, and from then on no check
  is begun as long as \<^verbatim>\<open>start()\<close> is not called.
\<close>

lemma stop_cancels_pending_timer:
  assumes "exec es (SeatMonitor minutes) = Some s" and "restart_safe es (SeatMonitor minutes)"
  shows "timers (stop s) = [] \<and>
     (timers s \<noteq> [] \<longrightarrow> isRunning s \<and> inflight (stop s) = []) \<and>
     (\<forall>es' s'. list_all (\<lambda>e. \<not> is_Start e) es' \<longrightarrow> exec es' (stop s) = Some s' \<longrightarrow>
        nextCheck s' = nextCheck s \<and> timers s' = [] \<and> (timers s \<noteq> [] \<longrightarrow> inflight s' = []))"
proof -
  from single_chain_init assms have sc: "single_chain s" by (rule single_chain_exec)
  then have t: "timers (stop s) = []" by (rule single_chain_stop_timers)
  from sc have i: "isRunning s \<and> inflight (stop s) = []" if "timers s \<noteq> []"
    using that by (cases "inflight s") (auto simp: single_chain_def split: if_splits)
  have "nextCheck s' = nextCheck s \<and> timers s' = [] \<and> (timers s \<noteq> [] \<longrightarrow> inflight s' = [])"
    if "list_all (\<lambda>e. \<not> is_Start e) es'" "exec es' (stop s) = Some s'" for es' s'
  proof -
    have nr: "\<not> isRunning (stop s)" by simp
    from stopped_exec [OF nr t that(2,1)] have "nextCheck s' = nextCheck s \<and> timers s' = []" by simp
    moreover have "inflight s' = []" if "timers s \<noteq> []"
      using quiescent_exec [OF nr t _ \<open>exec es' (stop s) = Some s'\<close> \<open>list_all (\<lambda>e. \<not> is_Start e) es'\<close>] i that
      by simp
    ultimately show ?thesis by simp
  qed
  with t i show ?thesis by blast
qed


text \<open>
  Claim C2 does not hold of every run. \<^verbatim>\<open>start(); stop(); start()\<close> while the first check is
  still suspended begins a second check next to it: two checks are in flight. When both
  have completed, each has armed a timer, so two timers are pending, and the monitor
  holds the handle of the second only. \<^verbatim>\<open>stop()\<close> then clears that one; the other fires
  and a check is begun on a monitor that is not running. (\<open>restart_safe_single_chain\<close>
  above is what holds: at most one timer or one check, in the runs that never restart a
  stopped monitor during a check; by \<open>program_keeps_single_chain\<close> these include every
  run of the program started from the command line.)
\<close>

theorem restart_during_check_doubles_chain:
  "\<exists>s s' s''.
     exec [Start ''t0'', Stop, Start ''t1''] (SeatMonitor (Num 5)) = Some s \<and>
     map fst (inflight s) = [0, 1] \<and>
     exec [Settle 0 (ResponseEnd (Parses (SoldCount 3))), Settle 1 (ResponseEnd (Parses (SoldCount 3)))] s = Some s' \<and>
     map fst (timers s') = [0, 1] \<and> timeoutId s' = Some 1 \<and>
     exec [Stop, Fire 0 ''t2''] s' = Some s'' \<and>
     \<not> isRunning s'' \<and> map fst (inflight s'') = [2] \<and> nextCheck s'' = Suc (nextCheck s')"
  by (simp add: run_defs cycle_defs)

section \<open>The claim about the command line\<close>

lemmas number_defs =
  js_isNaN_def parseFloat_def trimStart.simps whiteSpaceLength_def nonDecimalIntegerLiteral_def
  strDecimalLiteral_def strUnsignedDecimalLiteral_def isDecimalDigit_def exponentPart_def
  digitsValue_def pow10_def round_double_def Let_def

lemma number_examples:
  "\<not> js_isNaN ''0''" "parseFloat ''0'' = Num 0"
  "\<not> js_isNaN ''-3''" "parseFloat ''-3'' = Num (- 3)"
  "js_isNaN ''abc''" "parseFloat ''abc'' = NaN"
  "\<not> js_isNaN ''0.5''" "parseFloat ''0.5'' = Num (1 / 2)"
  "\<not> js_isNaN '' ''" "parseFloat '' '' = NaN"
  "\<not> js_isNaN ''0x10''" "parseFloat ''0x10'' = Num 0"
  "js_isNaN ''5abc''" "parseFloat ''5abc'' = Num 5"
  "\<not> js_isNaN ''2''" "parseFloat ''2'' = Num 2"
  by (simp_all add: number_defs)


















text \<open>
  The blank values, which the amended claim leaves aside: the program accepts a blank
  value, and the interval is NaN.
\<close>

lemma blank_is_accepted:
  assumes "flag = ''--interval'' \<or> flag = ''-i''" and "nextArg \<noteq> []" and "trimStart nextArg = []"
  shows "parseArguments [node, script, flag, nextArg] = ([], Inr NaN)"
  using assms by (auto simp: parseArguments_def js_isNaN_def parseFloat_def strDecimalLiteral_def)

lemma blank_interval_accepted:
  "parseArguments [''node'', ''seat-monitor.js'', ''--interval'', '' ''] = ([], Inr NaN) \<and>
   main [''node'', ''seat-monitor.js'', ''--interval'', '' ''] ''t0'' = Monitoring (start ''t0'' (SeatMonitor NaN))"
  by (simp add: parseArguments_def main_def number_examples SeatMonitor_def)

subsection \<open>Whole numbers of minutes\<close>

text \<open>
  The decimal digits of a natural number are read back as that number, so for whole
  numbers the two tests of \<^verbatim>\<open>parseArguments\<close> decide what the option promises: zero and
  every negative whole number are refused, every positive one is accepted.
\<close>

lemma digit_char:
  assumes "n < 10"
  shows "isDecimalDigit (''0123456789'' ! n) \<and> of_char (''0123456789'' ! n) = 48 + n"
proof -
  from assms consider "n = 0" | "n = 1" | "n = 2" | "n = 3" | "n = 4"
    | "n = 5" | "n = 6" | "n = 7" | "n = 8" | "n = 9"
    by atomize_elim arith
  then show ?thesis by cases (simp_all add: isDecimalDigit_def)
qed

lemma decimal_digits: "list_all isDecimalDigit (decimal n)"
proof (induction n rule: decimal.induct)
  case (1 n)
  show ?case
  proof (cases "n < 10")
    case True
    then show ?thesis by (simp add: decimal.simps [of n] digit_char)
  next
    case False
    with 1 show ?thesis by (simp add: decimal.simps [of n] digit_char)
  qed
qed

lemma decimal_not_empty: "decimal n \<noteq> []"
  by (simp add: decimal.simps [of n])

lemma digitsValue_snoc: "digitsValue (ds @ [c]) = 10 * digitsValue ds + (of_char c - 48)"
  by (simp add: digitsValue_def)

lemma digitsValue_decimal: "digitsValue (decimal n) = n"
proof (induction n rule: decimal.induct)
  case (1 n)
  show ?case
  proof (cases "n < 10")
    case True
    then show ?thesis by (simp add: decimal.simps [of n] digitsValue_def digit_char)
  next
    case False
    with 1 have "digitsValue (decimal (n div 10)) = n div 10" by simp
    with False show ?thesis
      by (simp add: decimal.simps [of n] digitsValue_snoc digit_char)
  qed
qed

lemma digit_cases:
  assumes "isDecimalDigit c"
  obtains "c = CHR ''0''" | "c = CHR ''1''" | "c = CHR ''2''" | "c = CHR ''3''" | "c = CHR ''4''"
    | "c = CHR ''5''" | "c = CHR ''6''" | "c = CHR ''7''" | "c = CHR ''8''" | "c = CHR ''9''"
  using assms by (auto simp: isDecimalDigit_def)

lemma whiteSpaceLength_digit: "isDecimalDigit c \<Longrightarrow> whiteSpaceLength (c # r) = 0"
  by (erule digit_cases) (simp_all add: whiteSpaceLength_def)

lemma trimStart_digit: "isDecimalDigit c \<Longrightarrow> trimStart (c # r) = c # r"
  by (simp add: trimStart.simps [of "c # r"] whiteSpaceLength_digit)

lemma trimStart_Nil: "trimStart [] = []"
  by (simp add: trimStart.simps [of "[]"] whiteSpaceLength_def)

lemma digit_not_letter: "isDecimalDigit c \<Longrightarrow> c \<notin> set ''xXoObB''"
  by (erule digit_cases) simp_all

lemma nonDecimal_digits:
  assumes "list_all isDecimalDigit ds"
  shows "nonDecimalIntegerLiteral ds = None"
proof (cases ds)
  case Nil
  then show ?thesis by (simp add: nonDecimalIntegerLiteral_def)
next
  case (Cons z ds')
  show ?thesis
  proof (cases ds')
    case Nil
    with Cons show ?thesis by (simp add: nonDecimalIntegerLiteral_def)
  next
    case (Cons x r)
    with assms \<open>ds = z # ds'\<close> have "isDecimalDigit x" by simp
    then have "x \<notin> set ''xXoObB''" by (rule digit_not_letter)
    moreover have "takeWhile (\<lambda>c. False) r = []" by (cases r) simp_all
    ultimately show ?thesis using Cons \<open>ds = z # ds'\<close>
      by (simp add: nonDecimalIntegerLiteral_def Let_def)
  qed
qed

lemma whiteSpace_examples:
  "whiteSpaceLength '' x'' = 1" "whiteSpaceLength ''x '' = 0" "whiteSpaceLength [CHR 0xC2, CHR 0xA0] = 2"
  "whiteSpaceLength [CHR 0xE2, CHR 0x80, CHR 0x8A] = 3" "whiteSpaceLength [CHR 0xE2, CHR 0x80, CHR 0x8B] = 0"
  "whiteSpaceLength [CHR 0xE2, CHR 0x80] = 0" "whiteSpaceLength [CHR 0xEF, CHR 0xBB, CHR 0xBF, CHR ''1''] = 3"
  "trimStart [CHR 0x09, CHR 0xEF, CHR 0xBB, CHR 0xBF, CHR ''1''] = ''1''"
  by (simp_all add: whiteSpaceLength_def trimStart.simps)

lemma takeWhile_all: "list_all P xs \<Longrightarrow> takeWhile P xs = xs \<and> dropWhile P xs = []"
  by (induction xs) auto

lemma strUnsigned_digits:
  assumes "list_all isDecimalDigit ds" and "ds \<noteq> []"
  shows "strUnsignedDecimalLiteral ds = Some (round_double (of_nat (digitsValue ds)), [])"
proof -
  from assms obtain c r where ds: "ds = c # r" "isDecimalDigit c" by (cases ds) auto
  then have "take 8 ds \<noteq> ''Infinity''" by (auto simp: isDecimalDigit_def)
  moreover from takeWhile_all [OF assms(1)]
  have tw: "takeWhile isDecimalDigit ds = ds" and dw: "dropWhile isDecimalDigit ds = []" by simp_all
  ultimately show ?thesis using assms(2)
    unfolding strUnsignedDecimalLiteral_def Let_def tw dw
    by (simp add: exponentPart_def pow10_def)
qed

lemma strDecimal_digits:
  assumes "list_all isDecimalDigit ds" and "ds \<noteq> []"
  shows "strDecimalLiteral ds = Some (round_double (of_nat (digitsValue ds)), [])"
proof -
  from assms obtain c r where ds: "ds = c # r" "isDecimalDigit c" by (cases ds) auto
  then have "c \<noteq> CHR ''+''" "c \<noteq> CHR ''-''" by (auto simp: isDecimalDigit_def)
  with ds strUnsigned_digits [OF assms] show ?thesis by (simp add: strDecimalLiteral_def)
qed

lemma strDecimal_minus_digits:
  assumes "list_all isDecimalDigit ds" and "ds \<noteq> []"
  shows "strDecimalLiteral (CHR ''-'' # ds) = Some (js_negate (round_double (of_nat (digitsValue ds))), [])"
  using strUnsigned_digits [OF assms] by (simp add: strDecimalLiteral_def)

lemma number_of_digits:
  assumes "list_all isDecimalDigit ds" and "ds \<noteq> []"
  shows "\<not> js_isNaN ds" and "parseFloat ds = round_double (of_nat (digitsValue ds))"
proof -
  from assms obtain c r where ds: "ds = c # r" "isDecimalDigit c" by (cases ds) auto
  then have t: "trimStart ds = ds" by (simp add: trimStart_digit)
  from t assms show "\<not> js_isNaN ds"
    by (simp add: js_isNaN_def nonDecimal_digits strDecimal_digits trimStart_Nil)
  from t assms show "parseFloat ds = round_double (of_nat (digitsValue ds))"
    by (simp add: parseFloat_def strDecimal_digits)
qed

lemma number_of_minus_digits:
  assumes "list_all isDecimalDigit ds" and "ds \<noteq> []"
  shows "\<not> js_isNaN (CHR ''-'' # ds)"
    and "parseFloat (CHR ''-'' # ds) = js_negate (round_double (of_nat (digitsValue ds)))"
proof -
  have t: "trimStart (CHR ''-'' # ds) = CHR ''-'' # ds"
    by (simp add: trimStart.simps [of "CHR ''-'' # ds"] whiteSpaceLength_def)
  have n: "nonDecimalIntegerLiteral (CHR ''-'' # ds) = None"
    by (simp add: nonDecimalIntegerLiteral_def Let_def split: list.splits)
  from t n assms show "\<not> js_isNaN (CHR ''-'' # ds)"
    by (simp add: js_isNaN_def strDecimal_minus_digits trimStart_Nil)
  from t assms show "parseFloat (CHR ''-'' # ds) = js_negate (round_double (of_nat (digitsValue ds)))"
    by (simp add: parseFloat_def strDecimal_minus_digits)
qed

lemma round_double_nat_le_zero: "js_le_zero (round_double (of_nat n)) \<longleftrightarrow> n = 0"
proof (cases "n = 0")
  case True
  then show ?thesis by (simp add: round_double_def)
next
  case False
  then have "(1::rat) \<le> of_nat n" by simp
  moreover have "(1::rat) / 2 ^ 1075 < 1" by simp
  ultimately have "\<not> \<bar>of_nat n :: rat\<bar> \<le> 1 / 2 ^ 1075" by linarith
  with False show ?thesis by (simp add: round_double_def)
qed

lemma round_double_nat_negate_le_zero: "js_le_zero (js_negate (round_double (of_nat n)))"
  by (simp add: round_double_def)

lemma round_double_zero: "round_double 0 = Num 0"
  by (simp add: round_double_def)

lemma integer_interval_loop:
  assumes "flag = ''--interval'' \<or> flag = ''-i''"
  shows "parseArguments_loop [flag, decimal n] minutes =
           (if n = 0 then ([Err ''Error: Interval must be greater than 0''], Inl 1)
            else ([], Inr (round_double (of_nat n))))"
proof -
  note d = number_of_digits [OF decimal_digits decimal_not_empty, of n]
  have ne: "decimal n \<noteq> []" by (rule decimal_not_empty)
  have "parseArguments_loop [flag, decimal n] minutes =
          (if js_le_zero (parseFloat (decimal n)) then ([Err ''Error: Interval must be greater than 0''], Inl 1)
           else parseArguments_loop [] (parseFloat (decimal n)))"
    using assms d(1) ne by (elim disjE) simp_all
  then show ?thesis
    by (simp add: d(2) digitsValue_decimal round_double_nat_le_zero)
qed

lemma negative_integer_interval_loop:
  assumes "flag = ''--interval'' \<or> flag = ''-i''"
  shows "parseArguments_loop [flag, CHR ''-'' # decimal n] minutes =
           ([Err ''Error: Interval must be greater than 0''], Inl 1)"
proof -
  note d = number_of_minus_digits [OF decimal_digits decimal_not_empty, of n]
  have "js_le_zero (parseFloat (CHR ''-'' # decimal n))"
    by (simp add: d(2) round_double_nat_negate_le_zero)
  with assms d(1) show ?thesis by (elim disjE) simp_all
qed

lemma integer_intervals:
  assumes "flag = ''--interval'' \<or> flag = ''-i''"
  shows "parseArguments [node, script, flag, decimal n] =
           (if n = 0 then ([Err ''Error: Interval must be greater than 0''], Inl 1)
            else ([], Inr (round_double (of_nat n))))"
    and "parseArguments [node, script, flag, ''-'' @ decimal n] =
           ([Err ''Error: Interval must be greater than 0''], Inl 1)"
  using integer_interval_loop [OF assms, of n DEFAULT_INTERVAL]
        negative_integer_interval_loop [OF assms, of n DEFAULT_INTERVAL]
  by (simp_all add: parseArguments_def)

end
